theory Spec2Isabelle
  imports Main "HOL-Library.Signed_Division"
begin

section \<open>The random-array program \<^verbatim>\<open>CPP/hw.cpp\<close>\<close>

text \<open>
  The whole program is the function \<^verbatim>\<open>main\<close>: it seeds the C library's generator,
  fills \<^verbatim>\<open>int numbers[SIZE]\<close> with \<^verbatim>\<open>rand() % 100 + 1\<close>, prints every element
  followed by a space while adding it to \<^verbatim>\<open>sum\<close>, and prints the sum.

  The model is a state-passing one. What C++ leaves undefined (an index outside the
  array, reading an element that was never written, signed overflow) is an explicit
  error value, so that "the program runs to its \<^verbatim>\<open>return 0\<close>" is a statement that can
  be proved or refuted.
\<close>

subsection \<open>Machine integers\<close>

text \<open>
  \<^verbatim>\<open>int\<close> is taken to be 32 bits wide. Values are mathematical integers; every
  addition checks the range, since signed overflow is undefined in C++.
\<close>

datatype error = SignedOverflow | OutOfBounds | UninitialisedRead

type_synonym 'a result = "error + 'a"

definition INT_MIN :: int where
  "INT_MIN = - 2147483648"

definition INT_MAX :: int where
  "INT_MAX = 2147483647"

definition add_int :: "int \<Rightarrow> int \<Rightarrow> int result" where
  "add_int a b =
     (if INT_MIN \<le> a + b \<and> a + b \<le> INT_MAX then Inr (a + b) else Inl SignedOverflow)"

text \<open>
  The C++ operator \<^verbatim>\<open>%\<close> truncates towards zero: the remainder has the sign of the
  dividend. The divisor in the program is the literal 100, so neither division by zero
  nor the overflow of \<^verbatim>\<open>INT_MIN % -1\<close> can occur.
\<close>

definition rem_int :: "int \<Rightarrow> int \<Rightarrow> int" where
  "rem_int a b = a smod b"

subsection \<open>The program state\<close>

text \<open>
  \<^verbatim>\<open>numbers\<close> is the array; an element that has not been assigned yet is \<open>None\<close>.
  \<^verbatim>\<open>sum\<close> is the accumulator, \<open>cout\<close> the characters written to standard output so
  far, and \<open>rand_calls\<close> the number of calls of \<^verbatim>\<open>rand()\<close> made so far.
\<close>

record state =
  numbers :: "int option list"
  sum_acc :: int
  cout :: string
  rand_calls :: nat

definition SIZE :: nat where
  "SIZE = 10"

text \<open>
  The generator of the C library is not part of the program. A run is given the sequence
  \<open>raws\<close> of values that \<^verbatim>\<open>rand()\<close> returns after \<^verbatim>\<open>srand(time(0))\<close>: \<open>raws k\<close> is
  the result of call number \<open>k\<close> (counted from 0).
\<close>

definition rand :: "(nat \<Rightarrow> int) \<Rightarrow> state \<Rightarrow> int \<times> state" where
  "rand raws st = (raws (rand_calls st), st\<lparr>rand_calls := Suc (rand_calls st)\<rparr>)"

definition array_set :: "int option list \<Rightarrow> nat \<Rightarrow> int \<Rightarrow> int option list result" where
  "array_set a i v = (if i < length a then Inr (a[i := Some v]) else Inl OutOfBounds)"

definition array_get :: "int option list \<Rightarrow> nat \<Rightarrow> int result" where
  "array_get a i =
     (if i < length a
      then (case a ! i of None \<Rightarrow> Inl UninitialisedRead | Some v \<Rightarrow> Inr v)
      else Inl OutOfBounds)"

subsection \<open>Output\<close>

text \<open>
  \<^verbatim>\<open>std::cout << n\<close> for an \<^verbatim>\<open>int\<close> writes its decimal digits, with a minus sign for
  a negative number. \<^verbatim>\<open>std::endl\<close> writes a line feed (and flushes, which the model
  does not observe).
\<close>

definition digit_char :: "nat \<Rightarrow> char" where
  "digit_char d = ''0123456789'' ! d"

function show_nat :: "nat \<Rightarrow> string" where
  "show_nat n =
     (if n < 10 then [digit_char n] else show_nat (n div 10) @ [digit_char (n mod 10)])"
  by pat_completeness auto
termination
  by (relation "measure (\<lambda>n. n)") auto

declare show_nat.simps [simp del]

definition show_int :: "int \<Rightarrow> string" where
  "show_int k = (if k < 0 then CHR ''-'' # show_nat (nat (- k)) else show_nat (nat k))"

definition endl :: string where
  "endl = [CHR 0x0A]"

definition put :: "string \<Rightarrow> state \<Rightarrow> state" where
  "put s st = st\<lparr>cout := cout st @ s\<rparr>"

definition bind :: "'a result \<Rightarrow> ('a \<Rightarrow> 'b result) \<Rightarrow> 'b result" where
  "bind m f = (case m of Inl e \<Rightarrow> Inl e | Inr v \<Rightarrow> f v)"

subsection \<open>The loop and \<^verbatim>\<open>main\<close>\<close>

text \<open>
  One iteration, for the loop index \<open>i\<close>:
  \<^verbatim>\<open>numbers[i] = rand() % 100 + 1; std::cout << numbers[i] << " "; sum += numbers[i];\<close>
\<close>

definition loop_body :: "(nat \<Rightarrow> int) \<Rightarrow> nat \<Rightarrow> state \<Rightarrow> state result" where
  "loop_body raws i st =
     (let (raw, st1) = rand raws st in
      bind (add_int (rem_int raw 100) 1) (\<lambda>v.
      bind (array_set (numbers st1) i v) (\<lambda>a.
      let st2 = st1\<lparr>numbers := a\<rparr> in
      bind (array_get (numbers st2) i) (\<lambda>x.
      let st3 = put '' '' (put (show_int x) st2) in
      bind (array_get (numbers st3) i) (\<lambda>y.
      bind (add_int (sum_acc st3) y) (\<lambda>s.
      Inr (st3\<lparr>sum_acc := s\<rparr>)))))))"

text \<open>
  \<^verbatim>\<open>for (int i = 0; i < SIZE; ++i) { ... }\<close>, entered with the index \<open>i\<close>. The index
  stays within \<open>0..SIZE\<close>, so it is a natural number here.
\<close>

function loop :: "(nat \<Rightarrow> int) \<Rightarrow> nat \<Rightarrow> state \<Rightarrow> state result" where
  "loop raws i st =
     (if i < SIZE
      then (case loop_body raws i st of Inl e \<Rightarrow> Inl e | Inr st' \<Rightarrow> loop raws (Suc i) st')
      else Inr st)"
  by pat_completeness auto
termination
  by (relation "measure (\<lambda>(raws, i, st). SIZE - i)") auto

declare loop.simps [simp del]

text \<open>The state at the declarations: nothing written, the array not yet assigned.\<close>

definition init_state :: state where
  "init_state = \<lparr>numbers = replicate SIZE None, sum_acc = 0, cout = [], rand_calls = 0\<rparr>"

text \<open>
  The state when the loop is entered, after
  \<^verbatim>\<open>std::cout << "The random array elements are: " << std::endl;\<close>
\<close>

definition loop_entry :: state where
  "loop_entry = put endl (put ''The random array elements are: '' init_state)"

text \<open>\<^verbatim>\<open>main\<close> returns its exit code together with the final state.\<close>

definition main :: "(nat \<Rightarrow> int) \<Rightarrow> (int \<times> state) result" where
  "main raws =
     (let st1 = loop_entry in
      bind (loop raws 0 st1) (\<lambda>st2.
      let st3 = put endl st2;
          st4 = put endl (put (show_int (sum_acc st3))
                  (put ''The sum of the array elements is: '' st3))
      in Inr (0, st4)))"

subsection \<open>Observing a run\<close>

text \<open>
  The state after the first \<open>n\<close> iterations of a loop entered with index \<open>i\<close>: the loop
  unrolled \<open>n\<close> times, without the test of the index.
\<close>

fun steps :: "(nat \<Rightarrow> int) \<Rightarrow> nat \<Rightarrow> nat \<Rightarrow> state \<Rightarrow> state result" where
  "steps raws i 0 st = Inr st"
| "steps raws i (Suc n) st =
     (case loop_body raws i st of Inl e \<Rightarrow> Inl e | Inr st' \<Rightarrow> steps raws (Suc i) n st')"

text \<open>The exit code, the text written, the array and the accumulator of a finished run.\<close>

definition exit_code :: "(int \<times> state) result \<Rightarrow> int result" where
  "exit_code r = map_sum id fst r"

definition printed :: "(int \<times> state) result \<Rightarrow> string result" where
  "printed r = map_sum id (\<lambda>(rc, st). cout st) r"

definition final_numbers :: "(int \<times> state) result \<Rightarrow> int option list result" where
  "final_numbers r = map_sum id (\<lambda>(rc, st). numbers st) r"

definition final_sum :: "(int \<times> state) result \<Rightarrow> int result" where
  "final_sum r = map_sum id (\<lambda>(rc, st). sum_acc st) r"

text \<open>
  The values a run generates from the first \<open>n\<close> raw values, and how the loop prints a
  list of values: each one followed by a space.
\<close>

definition generated :: "(nat \<Rightarrow> int) \<Rightarrow> nat \<Rightarrow> int list" where
  "generated raws n = map (\<lambda>k. rem_int (raws k) 100 + 1) [0..<n]"

definition spaced :: "int list \<Rightarrow> string" where
  "spaced vs = concat (map (\<lambda>v. show_int v @ '' '') vs)"

text \<open>
  The text of a run that displays the values \<open>vs\<close> and the total \<open>s\<close>: the label and a
  line feed, the values each followed by a space and a line feed, the sum line.
\<close>

definition run_text :: "int list \<Rightarrow> int \<Rightarrow> string" where
  "run_text vs s =
     ''The random array elements are: '' @ endl @ spaced vs @ endl
     @ (''The sum of the array elements is: '' @ show_int s) @ endl"

text \<open>
  The lines of a text (a line feed ends a line) and the tokens of a line (maximal runs of
  characters other than the space).
\<close>

fun split_lines :: "string \<Rightarrow> string \<Rightarrow> string list" where
  "split_lines cur [] = (if cur = [] then [] else [cur])"
| "split_lines cur (c # cs) =
     (if c = CHR 0x0A then cur # split_lines [] cs else split_lines (cur @ [c]) cs)"

definition lines_of :: "string \<Rightarrow> string list" where
  "lines_of s = split_lines [] s"

fun split_tokens :: "string \<Rightarrow> string \<Rightarrow> string list" where
  "split_tokens cur [] = (if cur = [] then [] else [cur])"
| "split_tokens cur (c # cs) =
     (if c = CHR '' ''
      then (if cur = [] then [] else [cur]) @ split_tokens [] cs
      else split_tokens (cur @ [c]) cs)"

definition tokens_of :: "string \<Rightarrow> string list" where
  "tokens_of s = split_tokens [] s"

text \<open>
  The shape of a text: its lines, each split into tokens, with every token that is a
  decimal integer replaced by a mark.
\<close>

definition is_digit :: "char \<Rightarrow> bool" where
  "is_digit c = (c \<in> set ''0123456789'')"

definition is_int_token :: "string \<Rightarrow> bool" where
  "is_int_token t =
     (case t of
        [] \<Rightarrow> False
      | c # cs \<Rightarrow> if c = CHR ''-'' then cs \<noteq> [] \<and> list_all is_digit cs
                 else list_all is_digit t)"

definition mark :: "string \<Rightarrow> string" where
  "mark t = (if is_int_token t then ''#'' else t)"

definition shape_of :: "string \<Rightarrow> string list list" where
  "shape_of s = map (\<lambda>l. map mark (tokens_of l)) (lines_of s)"

text \<open>
  Reading a decimal integer back from its digits, and the integers that a text displays:
  for every line, the values of its tokens that are integers.
\<close>

definition digit_val :: "char \<Rightarrow> nat" where
  "digit_val c = length (takeWhile (\<lambda>d. d \<noteq> c) ''0123456789'')"

definition parse_nat :: "string \<Rightarrow> nat" where
  "parse_nat s = foldl (\<lambda>a c. 10 * a + digit_val c) 0 s"

definition parse_int :: "string \<Rightarrow> int" where
  "parse_int s =
     (if s \<noteq> [] \<and> hd s = CHR ''-'' then - int (parse_nat (tl s)) else int (parse_nat s))"

definition ints_of_line :: "string \<Rightarrow> int list" where
  "ints_of_line l = map parse_int (filter is_int_token (tokens_of l))"

definition displayed_ints :: "string \<Rightarrow> int list list" where
  "displayed_ints s = map ints_of_line (lines_of s)"

text \<open>
  The stub generator of the specification's concrete scenario, and a second one that
  agrees with it on the first ten values only.
\<close>

definition stub :: "nat \<Rightarrow> int" where
  "stub k = (if k < 10 then [5, 99, 0, 3, 50, 7, 88, 12, 200, 1] ! k else 0)"

definition stub2 :: "nat \<Rightarrow> int" where
  "stub2 k = (if k < 10 then [5, 99, 0, 3, 50, 7, 88, 12, 200, 1] ! k else 7)"

section \<open>Properties\<close>

subsection \<open>Arithmetic of one element\<close>

lemma add_int_ok: "INT_MIN \<le> a + b \<Longrightarrow> a + b \<le> INT_MAX \<Longrightarrow> add_int a b = Inr (a + b)"
  by (simp add: add_int_def)

lemma rem_int_100_bounds: "- 100 < rem_int raw 100 \<and> rem_int raw 100 < 100"
  unfolding rem_int_def signed_modulo_int_def
  by (cases "raw < 0") (auto simp: sgn_if)
 
lemma rem_int_nonneg: "0 \<le> raw \<Longrightarrow> rem_int raw 100 = raw mod 100"
  unfolding rem_int_def signed_modulo_int_def
  by (auto simp: sgn_if)

subsection \<open>The loop\<close>

text \<open>
  One iteration succeeds whenever the index is inside the array and the new total is in
  range; it then draws one raw value, stores and prints the mapped value and adds it.
\<close>

lemma loop_body_ok:
  assumes "i < length (numbers st)"
    and "INT_MIN \<le> sum_acc st + (rem_int (raws (rand_calls st)) 100 + 1)"
    and "sum_acc st + (rem_int (raws (rand_calls st)) 100 + 1) \<le> INT_MAX"
  shows "loop_body raws i st =
    Inr \<lparr>numbers = (numbers st)[i := Some (rem_int (raws (rand_calls st)) 100 + 1)],
         sum_acc = sum_acc st + (rem_int (raws (rand_calls st)) 100 + 1),
         cout = cout st @ show_int (rem_int (raws (rand_calls st)) 100 + 1) @ '' '',
         rand_calls = Suc (rand_calls st)\<rparr>"
proof -
  have g: "add_int (rem_int (raws (rand_calls st)) 100) 1 = Inr (rem_int (raws (rand_calls st)) 100 + 1)"
    using rem_int_100_bounds [of "raws (rand_calls st)"]
    by (simp add: add_int_def INT_MIN_def INT_MAX_def)
  show ?thesis
    using assms
    by (simp add: loop_body_def rand_def g bind_def array_set_def array_get_def put_def add_int_ok)
qed

lemma loop_steps: "i \<le> SIZE \<Longrightarrow> loop raws i st = steps raws i (SIZE - i) st"
proof (induction raws i st rule: loop.induct)
  case (1 raws i st)
  show ?case
  proof (cases "i < SIZE")
    case True
    then have e: "SIZE - i = Suc (SIZE - Suc i)" by simp
    show ?thesis
      using True 1 by (subst loop.simps, subst e) (simp split: sum.splits)
  next
    case False
    with 1 show ?thesis by (subst loop.simps) simp
  qed
qed

lemma generated_Suc:
  "generated raws (Suc n) = (rem_int (raws 0) 100 + 1) # generated (\<lambda>k. raws (Suc k)) n"
  by (simp add: generated_def map_upt_Suc del: upt_Suc)

lemma length_generated: "length (generated raws n) = n"
  by (simp add: generated_def)

lemma generated_nonneg:
  assumes "\<forall>k<n. 0 \<le> raws k"
  shows "generated raws n = map (\<lambda>k. raws k mod 100 + 1) [0..<n]"
  unfolding generated_def using assms by (simp add: rem_int_nonneg)

lemma sum_list_bounds:
  fixes vs :: "int list"
  assumes "\<forall>v\<in>set vs. lo \<le> v \<and> v \<le> hi"
  shows "lo * int (length vs) \<le> sum_list vs \<and> sum_list vs \<le> hi * int (length vs)"
  using assms by (induction vs) (auto simp: algebra_simps)

lemma spaced_Cons: "spaced (v # vs) = show_int v @ '' '' @ spaced vs"
  by (simp add: spaced_def)

lemma steps_ok:
  assumes "i + n \<le> length (numbers st)"
    and "INT_MIN + 100 * int n \<le> sum_acc st"
    and "sum_acc st + 100 * int n \<le> INT_MAX"
  shows "steps raws i n st =
    Inr \<lparr>numbers = take i (numbers st)
                   @ map Some (generated (\<lambda>k. raws (rand_calls st + k)) n)
                   @ drop (i + n) (numbers st),
         sum_acc = sum_acc st + sum_list (generated (\<lambda>k. raws (rand_calls st + k)) n),
         cout = cout st @ spaced (generated (\<lambda>k. raws (rand_calls st + k)) n),
         rand_calls = rand_calls st + n\<rparr>"
  using assms
proof (induction n arbitrary: i st)
  case 0
  then show ?case by (simp add: generated_def spaced_def)
next
  case (Suc n)
  let ?v = "rem_int (raws (rand_calls st)) 100 + 1"
  let ?st' = "\<lparr>numbers = (numbers st)[i := Some ?v], sum_acc = sum_acc st + ?v,
               cout = cout st @ show_int ?v @ '' '', rand_calls = Suc (rand_calls st)\<rparr>"
  have v: "- 100 < ?v \<and> ?v \<le> 100"
    using rem_int_100_bounds [of "raws (rand_calls st)"] by simp
  have b: "loop_body raws i st = Inr ?st'"
    using Suc.prems v by (intro loop_body_ok) auto
  have ih: "steps raws (Suc i) n ?st' =
    Inr \<lparr>numbers = take (Suc i) (numbers ?st')
                   @ map Some (generated (\<lambda>k. raws (rand_calls ?st' + k)) n)
                   @ drop (Suc i + n) (numbers ?st'),
         sum_acc = sum_acc ?st' + sum_list (generated (\<lambda>k. raws (rand_calls ?st' + k)) n),
         cout = cout ?st' @ spaced (generated (\<lambda>k. raws (rand_calls ?st' + k)) n),
         rand_calls = rand_calls ?st' + n\<rparr>"
    using Suc.prems v by (intro Suc.IH) auto
  have t: "take (Suc i) ((numbers st)[i := Some ?v]) = take i (numbers st) @ [Some ?v]"
    using Suc.prems by (simp add: take_Suc_conv_app_nth)
  show ?case
    using Suc.prems
    by (simp add: b ih t generated_Suc spaced_Cons del: upt_Suc)
qed

lemma loop_entry_simps:
  "numbers loop_entry = replicate SIZE None"
  "sum_acc loop_entry = 0"
  "cout loop_entry = ''The random array elements are: '' @ endl"
  "rand_calls loop_entry = 0"
  by (simp_all add: loop_entry_def init_state_def put_def)

lemma steps_entry:
  assumes "n \<le> SIZE"
  shows "steps raws 0 n loop_entry =
    Inr \<lparr>numbers = map Some (generated raws n) @ replicate (SIZE - n) None,
         sum_acc = sum_list (generated raws n),
         cout = ''The random array elements are: '' @ endl @ spaced (generated raws n),
         rand_calls = n\<rparr>"
proof -
  have "steps raws 0 n loop_entry =
    Inr \<lparr>numbers = take 0 (numbers loop_entry)
                   @ map Some (generated (\<lambda>k. raws (rand_calls loop_entry + k)) n)
                   @ drop (0 + n) (numbers loop_entry),
         sum_acc = sum_acc loop_entry + sum_list (generated (\<lambda>k. raws (rand_calls loop_entry + k)) n),
         cout = cout loop_entry @ spaced (generated (\<lambda>k. raws (rand_calls loop_entry + k)) n),
         rand_calls = rand_calls loop_entry + n\<rparr>"
    using assms
    by (intro steps_ok) (simp_all add: loop_entry_simps SIZE_def INT_MIN_def INT_MAX_def)
  then show ?thesis by (simp add: loop_entry_simps)
qed

lemma main_eq:
  "main raws =
    Inr (0, \<lparr>numbers = map Some (generated raws SIZE),
             sum_acc = sum_list (generated raws SIZE),
             cout = run_text (generated raws SIZE) (sum_list (generated raws SIZE)),
             rand_calls = SIZE\<rparr>)"
proof -
  have "loop raws 0 loop_entry = steps raws 0 SIZE loop_entry"
    using loop_steps [of 0 raws loop_entry] by simp
  then show ?thesis
    by (simp add: main_def bind_def steps_entry put_def run_text_def)
qed

lemma printed_main:
  "printed (main raws) = Inr (run_text (generated raws SIZE) (sum_list (generated raws SIZE)))"
  by (simp add: printed_def main_eq)

lemma stub_nonneg: "0 \<le> stub k"
proof (cases "k < 10")
  case True
  then have "k \<in> {0, 1, 2, 3, 4, 5, 6, 7, 8, 9}" by auto
  then show ?thesis by (auto simp: stub_def)
next
  case False
  then show ?thesis by (simp add: stub_def)
qed

lemma stub2_eq: "k < SIZE \<Longrightarrow> stub k = stub2 k"
  by (simp add: stub_def stub2_def SIZE_def)

lemma generated_range:
  assumes "\<forall>k<n. 0 \<le> raws k" and "v \<in> set (generated raws n)"
  shows "1 \<le> v \<and> v \<le> 100"
proof -
  from assms(2) obtain k where k: "k < n" "v = rem_int (raws k) 100 + 1"
    by (auto simp: generated_def)
  with assms(1) have "v = raws k mod 100 + 1" by (simp add: rem_int_nonneg)
  moreover have "0 \<le> raws k mod 100" "raws k mod 100 < 100" by simp_all
  ultimately show ?thesis by linarith
qed

lemma generated_cong:
  "\<forall>k<n. r1 k = r2 k \<Longrightarrow> generated r1 n = generated r2 n"
  by (simp add: generated_def)

subsection \<open>Printing and reading back\<close>

lemma is_digit_digit_char: "d < 10 \<Longrightarrow> is_digit (digit_char d)"
proof -
  assume "d < 10"
  then have "d \<in> {0, 1, 2, 3, 4, 5, 6, 7, 8, 9}" by auto
  then show ?thesis by (auto simp: is_digit_def digit_char_def)
qed

lemma show_nat_digits: "list_all is_digit (show_nat n) \<and> show_nat n \<noteq> []"
proof (induction n rule: show_nat.induct)
  case (1 n)
  show ?case
  proof (cases "n < 10")
    case True
    then show ?thesis by (subst (1 2) show_nat.simps) (simp add: is_digit_digit_char)
  next
    case False
    with 1 show ?thesis by (subst (1 2) show_nat.simps) (simp add: is_digit_digit_char)
  qed
qed

lemma is_digit_not_sep: "is_digit c \<Longrightarrow> c \<noteq> CHR '' '' \<and> c \<noteq> CHR 0x0A \<and> c \<noteq> CHR ''-''"
  by (auto simp: is_digit_def)

lemma show_int_token: "is_int_token (show_int k)"
proof (cases "k < 0")
  case True
  then show ?thesis using show_nat_digits [of "nat (- k)"]
    by (simp add: show_int_def is_int_token_def)
next
  case False
  obtain c cs where e: "show_nat (nat k) = c # cs"
    using show_nat_digits [of "nat k"] by (cases "show_nat (nat k)") auto
  then have "is_digit c" "list_all is_digit cs"
    using show_nat_digits [of "nat k"] by auto
  with False e show ?thesis
    using is_digit_not_sep [of c] by (simp add: show_int_def is_int_token_def)
qed

lemma show_nat_chars: "c \<in> set (show_nat n) \<Longrightarrow> is_digit c"
  using show_nat_digits [of n] by (simp add: list_all_iff)

lemma show_int_chars:
  assumes "c \<in> set (show_int k)"
  shows "c \<noteq> CHR '' '' \<and> c \<noteq> CHR 0x0A"
proof (cases "k < 0")
  case True
  with assms have "c = CHR ''-'' \<or> c \<in> set (show_nat (nat (- k)))"
    by (simp add: show_int_def)
  then show ?thesis
  proof
    assume "c = CHR ''-''"
    then show ?thesis by simp
  next
    assume "c \<in> set (show_nat (nat (- k)))"
    then show ?thesis using show_nat_chars is_digit_not_sep by blast
  qed
next
  case False
  with assms have "c \<in> set (show_nat (nat k))"
    by (simp add: show_int_def)
  then show ?thesis using show_nat_chars is_digit_not_sep by blast
qed

lemma show_int_nonempty: "show_int k \<noteq> []"
  using show_nat_digits by (simp add: show_int_def)

lemma split_lines_append:
  "CHR 0x0A \<notin> set s \<Longrightarrow> split_lines cur (s @ CHR 0x0A # rest) = (cur @ s) # split_lines [] rest"
  by (induction s arbitrary: cur) auto

lemma split_tokens_plain:
  "CHR '' '' \<notin> set s \<Longrightarrow> split_tokens cur s = (if cur @ s = [] then [] else [cur @ s])"
  by (induction s arbitrary: cur) auto

lemma split_tokens_append:
  "CHR '' '' \<notin> set s \<Longrightarrow> cur @ s \<noteq> [] \<Longrightarrow>
   split_tokens cur (s @ CHR '' '' # rest) = (cur @ s) # split_tokens [] rest"
  by (induction s arbitrary: cur) auto

lemma spaced_no_newline: "CHR 0x0A \<notin> set (spaced vs)"
  using show_int_chars by (induction vs) (auto simp: spaced_def)

lemma tokens_spaced: "tokens_of (spaced vs) = map show_int vs"
proof (induction vs)
  case Nil
  show ?case by (simp add: tokens_of_def spaced_def)
next
  case (Cons v vs)
  have "split_tokens [] (show_int v @ CHR '' '' # spaced vs) = ([] @ show_int v) # split_tokens [] (spaced vs)"
    using show_int_chars [of _ v] show_int_nonempty [of v]
    by (intro split_tokens_append) auto
  with Cons show ?case by (simp add: tokens_of_def spaced_Cons)
qed

lemma lines_of_three:
  assumes "CHR 0x0A \<notin> set a" and "CHR 0x0A \<notin> set b" and "CHR 0x0A \<notin> set c"
  shows "lines_of (a @ endl @ b @ endl @ c @ endl) = [a, b, c]"
proof -
  have 3: "split_lines [] (c @ CHR 0x0A # []) = [c]"
    using split_lines_append [OF assms(3), of "[]" "[]"] by simp
  have 2: "split_lines [] (b @ CHR 0x0A # (c @ [CHR 0x0A])) = [b, c]"
    using split_lines_append [OF assms(2), of "[]" "c @ [CHR 0x0A]"] 3 by simp
  have 1: "split_lines [] (a @ CHR 0x0A # (b @ CHR 0x0A # (c @ [CHR 0x0A]))) = [a, b, c]"
    using split_lines_append [OF assms(1), of "[]" "b @ CHR 0x0A # (c @ [CHR 0x0A])"] 2 by simp
  show ?thesis using 1 by (simp add: lines_of_def endl_def)
qed

lemma lines_of_run:
  "lines_of (run_text vs s)
   = [''The random array elements are: '', spaced vs,
      ''The sum of the array elements is: '' @ show_int s]"
  unfolding run_text_def
proof (rule lines_of_three)
  show "CHR 0x0A \<notin> set ''The random array elements are: ''" by simp
  show "CHR 0x0A \<notin> set (spaced vs)" by (rule spaced_no_newline)
  show "CHR 0x0A \<notin> set (''The sum of the array elements is: '' @ show_int s)"
    using show_int_chars [of _ s] by auto
qed

lemma tokens_label: "tokens_of ''The random array elements are: '' = [''The'', ''random'', ''array'', ''elements'', ''are:'']"
  by (simp add: tokens_of_def)

lemma split_tokens_after_space:
  "split_tokens cur (a @ CHR '' '' # b) = split_tokens cur (a @ '' '') @ split_tokens [] b"
  by (induction a arbitrary: cur) auto

lemma tokens_of_show_int: "tokens_of (show_int s) = [show_int s]"
proof -
  have "CHR '' '' \<notin> set (show_int s)"
    using show_int_chars [of "CHR '' ''" s] by blast
  then have "split_tokens [] (show_int s) = (if [] @ show_int s = [] then [] else [[] @ show_int s])"
    by (rule split_tokens_plain)
  then show ?thesis
    by (simp add: tokens_of_def show_int_nonempty)
qed

lemma tokens_sum_label:
  "tokens_of ''The sum of the array elements is: ''
   = [''The'', ''sum'', ''of'', ''the'', ''array'', ''elements'', ''is:'']"
  by (simp add: tokens_of_def)

lemma tokens_sum_line:
  "tokens_of (''The sum of the array elements is: '' @ show_int s)
   = [''The'', ''sum'', ''of'', ''the'', ''array'', ''elements'', ''is:'', show_int s]"
proof -
  have e: "''The sum of the array elements is: '' = ''The sum of the array elements is:'' @ '' ''"
    by simp
  have "tokens_of ((''The sum of the array elements is:'' @ CHR '' '' # []) @ show_int s)
        = tokens_of (''The sum of the array elements is:'' @ '' '') @ tokens_of (show_int s)"
    using split_tokens_after_space [of "[]" "''The sum of the array elements is:''" "show_int s"]
    by (simp only: tokens_of_def append_assoc append_Cons append_Nil)
  then have "tokens_of (''The sum of the array elements is: '' @ show_int s)
        = tokens_of ''The sum of the array elements is: '' @ tokens_of (show_int s)"
    by (simp only: e [symmetric])
  then show ?thesis
    by (simp only: tokens_sum_label tokens_of_show_int append_Cons append_Nil)
qed

lemma not_int_token_words:
  "\<not> is_int_token ''The''" "\<not> is_int_token ''random''" "\<not> is_int_token ''array''"
  "\<not> is_int_token ''elements''" "\<not> is_int_token ''are:''" "\<not> is_int_token ''sum''"
  "\<not> is_int_token ''of''" "\<not> is_int_token ''the''" "\<not> is_int_token ''is:''"
  by (simp_all add: is_int_token_def is_digit_def)

lemma shape_of_run:
  "shape_of (run_text vs s)
   = [[''The'', ''random'', ''array'', ''elements'', ''are:''],
      replicate (length vs) ''#'',
      [''The'', ''sum'', ''of'', ''the'', ''array'', ''elements'', ''is:'', ''#'']]"
proof -
  have t1: "map mark (tokens_of ''The random array elements are: '')
            = [''The'', ''random'', ''array'', ''elements'', ''are:'']"
    unfolding tokens_label by (simp add: mark_def not_int_token_words)
  have t2: "map mark (tokens_of (spaced vs)) = replicate (length vs) ''#''"
    unfolding tokens_spaced by (induction vs) (simp_all add: mark_def show_int_token)
  have t3: "map mark (tokens_of (''The sum of the array elements is: '' @ show_int s))
            = [''The'', ''sum'', ''of'', ''the'', ''array'', ''elements'', ''is:'', ''#'']"
    unfolding tokens_sum_line by (simp add: mark_def not_int_token_words show_int_token)
  show ?thesis
    unfolding shape_of_def lines_of_run
    by (simp only: list.map t1 t2 t3)
qed

lemma digit_val_digit_char: "d < 10 \<Longrightarrow> digit_val (digit_char d) = d"
proof -
  assume "d < 10"
  then have "d \<in> {0, 1, 2, 3, 4, 5, 6, 7, 8, 9}" by auto
  then show ?thesis by (auto simp: digit_val_def digit_char_def)
qed

lemma parse_nat_snoc: "parse_nat (s @ [c]) = 10 * parse_nat s + digit_val c"
  by (simp add: parse_nat_def)

lemma parse_show_nat: "parse_nat (show_nat n) = n"
proof (induction n rule: show_nat.induct)
  case (1 n)
  show ?case
  proof (cases "n < 10")
    case True
    then have "show_nat n = [digit_char n]" by (subst show_nat.simps) simp
    with True show ?thesis by (simp add: parse_nat_def digit_val_digit_char)
  next
    case False
    then have "show_nat n = show_nat (n div 10) @ [digit_char (n mod 10)]"
      by (subst show_nat.simps) simp
    with False 1 show ?thesis by (simp add: parse_nat_snoc digit_val_digit_char)
  qed
qed

lemma hd_show_nat: "hd (show_nat n) \<noteq> CHR ''-''"
proof -
  have "show_nat n \<noteq> []" using show_nat_digits by simp
  then have "hd (show_nat n) \<in> set (show_nat n)" by simp
  then show ?thesis using show_nat_chars is_digit_not_sep by blast
qed

lemma parse_show_int: "parse_int (show_int k) = k"
proof (cases "k < 0")
  case True
  then have s: "show_int k = CHR ''-'' # show_nat (nat (- k))"
    by (simp add: show_int_def)
  have "parse_int (CHR ''-'' # show_nat (nat (- k))) = - int (parse_nat (show_nat (nat (- k))))"
    unfolding parse_int_def by simp
  also have "\<dots> = - int (nat (- k))"
    by (simp only: parse_show_nat)
  also have "\<dots> = k"
    using True by linarith
  finally show ?thesis by (simp only: s)
next
  case False
  then have s: "show_int k = show_nat (nat k)"
    by (simp add: show_int_def)
  have "parse_int (show_nat (nat k)) = int (parse_nat (show_nat (nat k)))"
    unfolding parse_int_def using hd_show_nat [of "nat k"] by simp
  also have "\<dots> = int (nat k)"
    by (simp only: parse_show_nat)
  also have "\<dots> = k"
    using False by linarith
  finally show ?thesis by (simp only: s)
qed

lemma ints_of_label: "ints_of_line ''The random array elements are: '' = []"
  unfolding ints_of_line_def tokens_label by (simp add: not_int_token_words)

lemma ints_of_spaced: "ints_of_line (spaced vs) = vs"
  unfolding ints_of_line_def tokens_spaced
  by (induction vs) (simp_all add: show_int_token parse_show_int)

lemma ints_of_sum_line:
  "ints_of_line (''The sum of the array elements is: '' @ show_int s) = [s]"
  unfolding ints_of_line_def tokens_sum_line
  by (simp add: not_int_token_words show_int_token parse_show_int)

lemma displayed_ints_run:
  "displayed_ints (run_text vs s) = [[], vs, [s]]"
  unfolding displayed_ints_def lines_of_run
  by (simp only: list.map ints_of_label ints_of_spaced ints_of_sum_line)

lemma generated_stub: "generated stub SIZE = [6, 100, 1, 4, 51, 8, 89, 13, 1, 2]"
  by (simp add: generated_def SIZE_def stub_def rem_int_def signed_modulo_int_def upt_rec)

section \<open>The claims\<close>

subsection \<open>C1: the displayed sum is the sum of the displayed numbers\<close>

text \<open>
  The scenario run shows where the integers of the output are. The first line, the
  label, displays none; the ten numbers are on the second line; the sum is alone on the
  third line. So the second line does not report a sum, and the first line holds no
  numbers to add up.
\<close>

theorem displayed_sum_counterexample:
  "map_sum id displayed_ints (printed (main stub))
   = Inr [[], [6, 100, 1, 4, 51, 8, 89, 13, 1, 2], [275]]"
  by (simp add: printed_main displayed_ints_run generated_stub)

text \<open>
  C1, amended. For every sequence of raw generator values, the integers displayed are:
  none on the first line, exactly the 10 generated numbers on the second line, and on the
  third line one integer, which is the arithmetic sum of those 10 numbers. The integers
  are read back from the printed text.
\<close>

theorem displayed_sum_is_sum_of_displayed:
  "map_sum id displayed_ints (printed (main raws))
   = Inr [[], generated raws SIZE, [sum_list (generated raws SIZE)]]
   \<and> length (generated raws SIZE) = 10"
  by (simp add: printed_main displayed_ints_run length_generated SIZE_def)

subsection \<open>C2: the mapping and the range of an element\<close>

text \<open>
  C2. When the raw values are nonnegative (as the results of \<^verbatim>\<open>rand()\<close> are), element
  \<open>k\<close> of the array is \<open>raws k mod 100 + 1\<close>, the same values are the ones displayed, and
  each of them lies between 1 and 100.
\<close>

theorem generated_values_in_range:
  assumes "\<forall>k<SIZE. 0 \<le> raws k"
  shows "final_numbers (main raws) = Inr (map (\<lambda>k. Some (raws k mod 100 + 1)) [0..<SIZE])
         \<and> generated raws SIZE = map (\<lambda>k. raws k mod 100 + 1) [0..<SIZE]
         \<and> map_sum id displayed_ints (printed (main raws))
             = Inr [[], map (\<lambda>k. raws k mod 100 + 1) [0..<SIZE],
                    [sum_list (map (\<lambda>k. raws k mod 100 + 1) [0..<SIZE])]]
         \<and> (\<forall>k<SIZE. 1 \<le> raws k mod 100 + 1 \<and> raws k mod 100 + 1 \<le> 100)"
proof -
  have g: "generated raws SIZE = map (\<lambda>k. raws k mod 100 + 1) [0..<SIZE]"
    using assms by (rule generated_nonneg)
  have 1: "final_numbers (main raws) = Inr (map Some (generated raws SIZE))"
    by (simp add: final_numbers_def main_eq)
  have 2: "map_sum id displayed_ints (printed (main raws))
          = Inr [[], generated raws SIZE, [sum_list (generated raws SIZE)]]"
    by (simp add: printed_main displayed_ints_run)
  have 3: "\<forall>k<SIZE. 1 \<le> raws k mod 100 + 1 \<and> raws k mod 100 + 1 \<le> 100"
  proof (intro allI impI)
    fix k assume "k < SIZE"
    have "0 \<le> raws k mod 100" "raws k mod 100 < 100" by simp_all
    then show "1 \<le> raws k mod 100 + 1 \<and> raws k mod 100 + 1 \<le> 100" by linarith
  qed
  from 1 2 3 show ?thesis unfolding g by (simp add: comp_def)
qed

theorem generated_values_in_range_witness:
  "list_all (\<lambda>k. 0 \<le> stub k) [0..<SIZE]
   \<and> final_numbers (main stub)
       = Inr [Some 6, Some 100, Some 1, Some 4, Some 51, Some 8, Some 89, Some 13, Some 1, Some 2]"
proof -
  have h: "\<forall>k<SIZE. 0 \<le> stub k" by (simp add: stub_nonneg)
  have "map (\<lambda>k. Some (stub k mod 100 + 1)) [0..<SIZE]
        = [Some 6, Some 100, Some 1, Some 4, Some 51, Some 8, Some 89, Some 13, Some 1, Some 2]"
    by (simp add: SIZE_def stub_def upt_rec)
  moreover have "list_all (\<lambda>k. 0 \<le> stub k) [0..<SIZE]"
    by (simp add: list_all_iff stub_nonneg)
  ultimately show ?thesis
    using generated_values_in_range [OF h] by simp
qed

subsection \<open>C3: the concrete scenario\<close>

text \<open>
  C3. With the raw sequence 5, 99, 0, 3, 50, 7, 88, 12, 200, 1 the array holds
  6, 100, 1, 4, 51, 8, 89, 13, 1, 2, the sum is 275, and these are the values printed.
\<close>

theorem stub_scenario:
  "map stub [0..<10] = [5, 99, 0, 3, 50, 7, 88, 12, 200, 1]
   \<and> final_numbers (main stub) = Inr (map Some [6, 100, 1, 4, 51, 8, 89, 13, 1, 2])
   \<and> final_sum (main stub) = Inr 275
   \<and> printed (main stub) = Inr (run_text [6, 100, 1, 4, 51, 8, 89, 13, 1, 2] 275)"
proof -
  have "map stub [0..<10] = [5, 99, 0, 3, 50, 7, 88, 12, 200, 1]"
    by (simp add: stub_def upt_rec)
  then show ?thesis
    by (simp add: final_numbers_def final_sum_def printed_def main_eq generated_stub)
qed

subsection \<open>C4: the first lines of the output\<close>

text \<open>
  The lines of the scenario run. The first line is the label alone: the program writes
  \<^verbatim>\<open>std::endl\<close> directly after it. The numbers are on the second line, and since each
  of them is followed by a space, a space stands before that line's line feed.
\<close>

theorem first_line_counterexample:
  "map_sum id lines_of (printed (main stub))
   = Inr [''The random array elements are: '',
          ''6 100 1 4 51 8 89 13 1 2 '',
          ''The sum of the array elements is: 275'']"
proof -
  have 1: "spaced [6, 100, 1, 4, 51, 8, 89, 13, 1, 2] = ''6 100 1 4 51 8 89 13 1 2 ''"
    by code_simp
  have 2: "show_int 275 = ''275''"
    by code_simp
  show ?thesis
    by (simp add: printed_main generated_stub lines_of_run 1 2)
qed

text \<open>
  C4, amended. For every run, the output starts with the label
  \<^verbatim>\<open>The random array elements are: \<close> and a line feed; the next line consists of
  exactly 10 integers, each followed by a single space, and is ended by a line feed. The
  tokens of that line are the decimal forms of the 10 generated values.
\<close>

theorem label_line_then_numbers_line:
  "map_sum id (take 2) (map_sum id lines_of (printed (main raws)))
   = Inr [''The random array elements are: '', spaced (generated raws SIZE)]
   \<and> map_sum id (\<lambda>s. tokens_of (lines_of s ! 1)) (printed (main raws))
       = Inr (map show_int (generated raws SIZE))
   \<and> length (generated raws SIZE) = 10
   \<and> (\<exists>rest. printed (main raws)
        = Inr (''The random array elements are: '' @ endl
               @ spaced (generated raws SIZE) @ endl @ rest))"
proof -
  have "printed (main raws)
        = Inr (''The random array elements are: '' @ endl @ spaced (generated raws SIZE) @ endl
               @ ((''The sum of the array elements is: ''
                   @ show_int (sum_list (generated raws SIZE))) @ endl))"
    unfolding printed_main run_text_def by (rule refl)
  then have "\<exists>rest. printed (main raws)
        = Inr (''The random array elements are: '' @ endl
               @ spaced (generated raws SIZE) @ endl @ rest)"
    by (rule exI)
  then show ?thesis
    by (simp add: printed_main lines_of_run tokens_spaced length_generated SIZE_def)
qed

subsection \<open>C5: the sum line\<close>

text \<open>
  C5. The loop ends in a state \<open>st2\<close> in which all 10 elements are assigned and printed.
  The complete output of the program is what was written up to then, followed by a line
  feed, the label \<^verbatim>\<open>The sum of the array elements is: \<close>, the final sum and a line
  feed, and nothing more.
\<close>

theorem sum_line_written_last:
  "\<exists>st2. loop raws 0 loop_entry = Inr st2
     \<and> numbers st2 = map Some (generated raws SIZE)
     \<and> cout st2 = ''The random array elements are: '' @ endl @ spaced (generated raws SIZE)
     \<and> printed (main raws)
         = Inr (cout st2 @ endl @ ''The sum of the array elements is: ''
                @ show_int (sum_acc st2) @ endl)
     \<and> final_sum (main raws) = Inr (sum_acc st2)"
proof -
  have l: "loop raws 0 loop_entry = steps raws 0 SIZE loop_entry"
    using loop_steps [of 0 raws loop_entry] by simp
  show ?thesis
    unfolding l steps_entry [OF order_refl]
    by (simp add: printed_def final_sum_def main_eq run_text_def)
qed

subsection \<open>C6: the running sum\<close>

text \<open>
  C6. The accumulator is 0 at its declaration and when the loop is entered. After \<open>k\<close>
  iterations, for every \<open>k\<close> from 0 to 10, it is the sum of the first \<open>k\<close> generated values,
  and the program's loop is the 10-fold iteration. What the iterations write is the
  generated values only, whatever the accumulator holds (here: any start value \<open>a\<close> that
  leaves room for ten additions). The accumulator is read for output once, after the
  loop: the text \<^verbatim>\<open>main\<close> prints is the text the loop has written, then a line feed
  and the sum line with the value the accumulator has when the loop ends; read back, the
  printed text shows the 10 values and after them a single further integer, that value.
\<close>

theorem running_sum_invariant:
  assumes "k \<le> SIZE" and "INT_MIN + 1000 \<le> a" and "a \<le> INT_MAX - 1000"
  shows "sum_acc init_state = 0 \<and> sum_acc loop_entry = 0
     \<and> map_sum id sum_acc (steps raws 0 k loop_entry) = Inr (sum_list (generated raws k))
     \<and> map_sum id cout (steps raws 0 k loop_entry)
         = Inr (cout loop_entry @ spaced (generated raws k))
     \<and> map_sum id cout (steps raws 0 k (loop_entry\<lparr>sum_acc := a\<rparr>))
         = Inr (cout loop_entry @ spaced (generated raws k))
     \<and> loop raws 0 loop_entry = steps raws 0 SIZE loop_entry
     \<and> (\<exists>st2. loop raws 0 loop_entry = Inr st2
           \<and> sum_acc st2 = sum_list (generated raws SIZE)
           \<and> cout st2 = cout loop_entry @ spaced (generated raws SIZE)
           \<and> printed (main raws)
               = Inr (cout st2 @ endl @ ''The sum of the array elements is: ''
                      @ show_int (sum_acc st2) @ endl)
           \<and> final_sum (main raws) = Inr (sum_acc st2))
     \<and> map_sum id displayed_ints (printed (main raws))
         = Inr [[], generated raws SIZE, [sum_list (generated raws SIZE)]]"
proof -
  have l: "loop raws 0 loop_entry = steps raws 0 SIZE loop_entry"
    using loop_steps [of 0 raws loop_entry] by simp
  let ?st = "loop_entry\<lparr>sum_acc := a\<rparr>"
  have "steps raws 0 k ?st =
    Inr \<lparr>numbers = take 0 (numbers ?st)
                   @ map Some (generated (\<lambda>j. raws (rand_calls ?st + j)) k)
                   @ drop (0 + k) (numbers ?st),
         sum_acc = sum_acc ?st + sum_list (generated (\<lambda>j. raws (rand_calls ?st + j)) k),
         cout = cout ?st @ spaced (generated (\<lambda>j. raws (rand_calls ?st + j)) k),
         rand_calls = rand_calls ?st + k\<rparr>"
    using assms by (intro steps_ok) (simp_all add: loop_entry_simps SIZE_def)
  then have a: "map_sum id cout (steps raws 0 k ?st)
                = Inr (cout loop_entry @ spaced (generated raws k))"
    by (simp add: loop_entry_simps)
  have inv: "sum_acc init_state = 0 \<and> sum_acc loop_entry = 0
     \<and> map_sum id sum_acc (steps raws 0 k loop_entry) = Inr (sum_list (generated raws k))
     \<and> map_sum id cout (steps raws 0 k loop_entry)
         = Inr (cout loop_entry @ spaced (generated raws k))
     \<and> map_sum id cout (steps raws 0 k (loop_entry\<lparr>sum_acc := a\<rparr>))
         = Inr (cout loop_entry @ spaced (generated raws k))
     \<and> loop raws 0 loop_entry = steps raws 0 SIZE loop_entry"
    unfolding a steps_entry [OF assms(1)]
    by (simp add: l loop_entry_simps init_state_def)
  have out: "\<exists>st2. loop raws 0 loop_entry = Inr st2
           \<and> sum_acc st2 = sum_list (generated raws SIZE)
           \<and> cout st2 = cout loop_entry @ spaced (generated raws SIZE)
           \<and> printed (main raws)
               = Inr (cout st2 @ endl @ ''The sum of the array elements is: ''
                      @ show_int (sum_acc st2) @ endl)
           \<and> final_sum (main raws) = Inr (sum_acc st2)"
    unfolding l steps_entry [OF order_refl]
    by (simp add: printed_def final_sum_def main_eq run_text_def loop_entry_simps)
  have shown: "map_sum id displayed_ints (printed (main raws))
         = Inr [[], generated raws SIZE, [sum_list (generated raws SIZE)]]"
    by (simp add: printed_main displayed_ints_run)
  from inv out shown show ?thesis by (intro conjI) simp_all
qed

theorem running_sum_invariant_witness:
  "(3::nat) \<le> SIZE \<and> INT_MIN + 1000 \<le> 5 \<and> 5 \<le> INT_MAX - 1000
   \<and> map_sum id sum_acc (steps stub 0 3 loop_entry) = Inr 107
   \<and> map_sum id cout (steps stub 0 3 loop_entry) = Inr (cout loop_entry @ ''6 100 1 '')
   \<and> map_sum id cout (steps stub 0 3 (loop_entry\<lparr>sum_acc := 5\<rparr>))
       = Inr (cout loop_entry @ ''6 100 1 '')
   \<and> map_sum id displayed_ints (printed (main stub))
       = Inr [[], [6, 100, 1, 4, 51, 8, 89, 13, 1, 2], [275]]"
proof -
  have h: "(3::nat) \<le> SIZE" by (simp add: SIZE_def)
  have lo: "INT_MIN + 1000 \<le> 5" by (simp add: INT_MIN_def)
  have hi: "5 \<le> INT_MAX - 1000" by (simp add: INT_MAX_def)
  have g: "generated stub 3 = [6, 100, 1]"
    by (simp add: generated_def stub_def rem_int_def signed_modulo_int_def upt_rec)
  have s: "spaced [6, 100, 1] = ''6 100 1 ''" by code_simp
  note t = running_sum_invariant [OF h lo hi, of stub]
  have 1: "map_sum id sum_acc (steps stub 0 3 loop_entry) = Inr 107"
    using t by (simp add: g)
  have 2: "map_sum id cout (steps stub 0 3 loop_entry) = Inr (cout loop_entry @ ''6 100 1 '')"
    using t by (simp add: g s)
  have 3: "map_sum id cout (steps stub 0 3 (loop_entry\<lparr>sum_acc := 5\<rparr>))
           = Inr (cout loop_entry @ ''6 100 1 '')"
    using t by (simp add: g s)
  have 4: "map_sum id displayed_ints (printed (main stub))
           = Inr [[], [6, 100, 1, 4, 51, 8, 89, 13, 1, 2], [275]]"
    using t by (simp add: generated_stub)
  from h lo hi 1 2 3 4 show ?thesis by (intro conjI)
qed

subsection \<open>C7: the shape of the output\<close>

text \<open>
  The shape of the scenario run. Its first line is the label and holds no number; the 10
  numbers are on the second line and the sum line is the third. It is not the shape of a
  text whose first line carries the label and the 10 numbers and whose second line is the
  sum line.
\<close>

theorem output_shape_counterexample:
  "map_sum id shape_of (printed (main stub))
     = Inr [[''The'', ''random'', ''array'', ''elements'', ''are:''],
            [''#'', ''#'', ''#'', ''#'', ''#'', ''#'', ''#'', ''#'', ''#'', ''#''],
            [''The'', ''sum'', ''of'', ''the'', ''array'', ''elements'', ''is:'', ''#'']]
   \<and> map_sum id shape_of (printed (main stub))
     \<noteq> Inr [[''The'', ''random'', ''array'', ''elements'', ''are:'',
             ''#'', ''#'', ''#'', ''#'', ''#'', ''#'', ''#'', ''#'', ''#'', ''#''],
            [''The'', ''sum'', ''of'', ''the'', ''array'', ''elements'', ''is:'', ''#'']]"
proof -
  have r: "replicate 10 ''#''
           = [''#'', ''#'', ''#'', ''#'', ''#'', ''#'', ''#'', ''#'', ''#'', ''#'']"
    by code_simp
  have e: "map_sum id shape_of (printed (main stub))
     = Inr [[''The'', ''random'', ''array'', ''elements'', ''are:''],
            [''#'', ''#'', ''#'', ''#'', ''#'', ''#'', ''#'', ''#'', ''#'', ''#''],
            [''The'', ''sum'', ''of'', ''the'', ''array'', ''elements'', ''is:'', ''#'']]"
    by (simp add: printed_main shape_of_run length_generated SIZE_def r)
  show ?thesis unfolding e by simp
qed

text \<open>
  C7, amended. Any two runs print texts of the same shape, whatever the raw values: the
  label alone on the first line, exactly 10 integers on the second line, and then exactly
  one sum line, which ends with one integer.
\<close>

theorem output_shape_independent_of_values:
  "map_sum id shape_of (printed (main r1)) = map_sum id shape_of (printed (main r2))
   \<and> map_sum id shape_of (printed (main r1))
      = Inr [[''The'', ''random'', ''array'', ''elements'', ''are:''],
             replicate 10 ''#'',
             [''The'', ''sum'', ''of'', ''the'', ''array'', ''elements'', ''is:'', ''#'']]"
  by (simp add: printed_main shape_of_run length_generated SIZE_def)

subsection \<open>C8: the exit code\<close>

text \<open>
  C8. For every sequence of raw values the program reaches its \<^verbatim>\<open>return 0\<close>: no
  branch of undefined behaviour is taken, the loop ends, and the exit code is 0.
\<close>

theorem main_returns_zero: "exit_code (main raws) = Inr 0"
  by (simp add: exit_code_def main_eq)

subsection \<open>C9: the range of the sum\<close>

text \<open>
  C9. When the raw values are nonnegative, the final sum, which is the integer shown on
  the sum line, lies between 10 and 1000; it is within the range of \<^verbatim>\<open>int\<close>, and the
  run does not end in a signed overflow.
\<close>

theorem final_sum_bounds:
  assumes "\<forall>k<SIZE. 0 \<le> raws k"
  shows "\<exists>s. final_sum (main raws) = Inr s \<and> 10 \<le> s \<and> s \<le> 1000
           \<and> INT_MIN \<le> s \<and> s \<le> INT_MAX
           \<and> map_sum id displayed_ints (printed (main raws)) = Inr [[], generated raws SIZE, [s]]
           \<and> main raws \<noteq> Inl SignedOverflow"
proof -
  let ?vs = "generated raws SIZE"
  have "\<forall>v\<in>set ?vs. 1 \<le> v \<and> v \<le> 100"
    using assms generated_range by blast
  then have "1 * int (length ?vs) \<le> sum_list ?vs \<and> sum_list ?vs \<le> 100 * int (length ?vs)"
    by (rule sum_list_bounds)
  then have b: "10 \<le> sum_list ?vs \<and> sum_list ?vs \<le> 1000"
    by (simp add: length_generated SIZE_def)
  have "final_sum (main raws) = Inr (sum_list ?vs)"
    by (simp add: final_sum_def main_eq)
  moreover have "map_sum id displayed_ints (printed (main raws)) = Inr [[], ?vs, [sum_list ?vs]]"
    by (simp add: printed_main displayed_ints_run)
  moreover have "main raws \<noteq> Inl SignedOverflow"
    by (simp add: main_eq)
  ultimately show ?thesis
    using b by (simp add: INT_MIN_def INT_MAX_def)
qed

theorem final_sum_bounds_witness:
  "list_all (\<lambda>k. 0 \<le> stub k) [0..<SIZE] \<and> final_sum (main stub) = Inr 275
   \<and> main stub \<noteq> Inl SignedOverflow"
proof -
  have h: "\<forall>k<SIZE. 0 \<le> stub k" by (simp add: stub_nonneg)
  have "final_sum (main stub) = Inr 275"
    by (simp add: final_sum_def main_eq generated_stub)
  moreover have "list_all (\<lambda>k. 0 \<le> stub k) [0..<SIZE]"
    by (simp add: list_all_iff stub_nonneg)
  ultimately show ?thesis
    using final_sum_bounds [OF h] by simp
qed

subsection \<open>C10: determinism given the raw values\<close>

text \<open>
  C10. Two runs whose generators return the same first 10 raw values print the same
  text, character for character, and end with the same array and the same sum.
\<close>

theorem same_raws_same_output:
  assumes "\<forall>k<SIZE. r1 k = r2 k"
  shows "printed (main r1) = printed (main r2)
         \<and> final_numbers (main r1) = final_numbers (main r2)
         \<and> final_sum (main r1) = final_sum (main r2)"
proof -
  have "generated r1 SIZE = generated r2 SIZE"
    using assms by (rule generated_cong)
  then have "main r1 = main r2" by (simp add: main_eq)
  then show ?thesis by simp
qed

theorem same_raws_same_output_witness:
  "map stub [0..<SIZE] = map stub2 [0..<SIZE] \<and> stub 10 \<noteq> stub2 10
   \<and> printed (main stub) = printed (main stub2)"
proof -
  have h: "\<forall>k<SIZE. stub k = stub2 k" by (simp add: stub2_eq)
  have "stub 10 \<noteq> stub2 10" by (simp add: stub_def stub2_def)
  moreover have "map stub [0..<SIZE] = map stub2 [0..<SIZE]"
    using h by simp
  ultimately show ?thesis
    using same_raws_same_output [OF h] by simp
qed

end
